theory Spec2Isabelle
  imports Complex_Main "HOL-Library.Char_ord" "HOL-Library.List_Lexorder"
begin

section \<open>The OLED display controller of limelight (oled\_display.py)\<close>

text \<open>
  A shallow embedding of class \<open>OLEDDisplay\<close>. The object and the effects of its
  methods (the device, the log, the background thread and the timers) are one record that
  every method takes and returns. The background thread of \<open>play_animation\<close> is kept as a
  control point inside the record and advanced by \<open>animate_step\<close>, one atomic step at a
  time; a section under \<open>with self.lock\<close> is one step. \<open>Thread.join\<close> runs the
  thread until it has exited, and does not return when it never exits.
\<close>

subsection \<open>Monochrome images (PIL mode "1")\<close>

record image =
  isize :: "int \<times> int"
  rows :: "bool list list"

definition new_image :: "int \<times> int \<Rightarrow> image" where
  "new_image sz = (case sz of (w, h) \<Rightarrow>
     \<lparr>isize = (w, h), rows = replicate (nat h) (replicate (nat w) False)\<rparr>)"

definition getpixel :: "image \<Rightarrow> int \<Rightarrow> int \<Rightarrow> bool" where
  "getpixel img x y = rows img ! nat y ! nat x"

text \<open>\<open>Image.paste(src, (x, y))\<close>: the source covers the box with corner \<open>(x, y)\<close> and
  the source's size; what falls outside the destination is clipped.\<close>

definition paste :: "image \<Rightarrow> image \<Rightarrow> int \<times> int \<Rightarrow> image" where
  "paste dst src pos = (case pos of (x, y) \<Rightarrow> case isize src of (w, h) \<Rightarrow>
     case isize dst of (dw, dh) \<Rightarrow>
       dst\<lparr>rows :=
         map (\<lambda>Y. map (\<lambda>X.
                if x \<le> X \<and> X < x + w \<and> y \<le> Y \<and> Y < y + h
                then getpixel src (X - x) (Y - y) else getpixel dst X Y)
              [0..dw - 1])
           [0..dh - 1]\<rparr>)"

text \<open>\<open>ImageOps.invert(img.convert("L")).convert("1")\<close>: a mode "1" pixel is 0 or 255,
  so the inversion \<open>255 - v\<close> flips it and the conversions are exact.\<close>

definition invert :: "image \<Rightarrow> image" where
  "invert img = img\<lparr>rows := map (map Not) (rows img)\<rparr>"

subsection \<open>The environment: asset files and the font\<close>

text \<open>A file is what \<open>Image.open(f).convert("1")\<close> makes of it: an image, or an exception.\<close>

datatype asset_file = Bitmap image | Corrupt

record env =
  user_animations :: "string \<Rightarrow> (string \<times> asset_file) list option"
  package_animations :: "string \<Rightarrow> (string \<times> asset_file) list option"
  user_icons :: "string \<Rightarrow> asset_file option"
  package_icons :: "string \<Rightarrow> asset_file option"
  textbbox :: "string \<Rightarrow> int \<times> int \<times> int \<times> int"
  draw_text :: "image \<Rightarrow> int \<times> int \<Rightarrow> string \<Rightarrow> image"

definition endswith :: "string \<Rightarrow> string \<Rightarrow> bool" where
  "endswith n suf = (length suf \<le> length n \<and> drop (length n - length suf) n = suf)"

text \<open>\<open>sorted(dir.glob("*.bmp"))\<close>\<close>

definition sorted_bmp :: "(string \<times> asset_file) list \<Rightarrow> (string \<times> asset_file) list" where
  "sorted_bmp dir = sort_key fst (filter (\<lambda>e. endswith (fst e) ''.bmp'') dir)"

subsection \<open>The object\<close>

text \<open>The exceptions that \<open>_animate\<close> and \<open>display_static_image\<close> catch:
  \<open>1.0 / fps\<close> for \<open>fps = 0\<close>, a file that \<open>Image.open\<close> cannot decode, and
  \<open>time.sleep\<close> of a negative delay.\<close>

datatype exn = ZeroDivisionError | DecodeError | ValueError

datatype log_entry =
    AnimationNotFound string
  | NoFramesFound string
  | AnimationError string exn
  | ImageNotFound string
  | ImageError string exn

datatype callback = DisplayIdle | Clear

datatype timer_status = Pending | Cancelled | Fired

record timer_obj =
  t_interval :: rat
  t_function :: callback
  t_status :: timer_status

text \<open>The control points of \<open>_animate\<close>: before the frames are loaded, at the test of
  \<open>while self.is_animating\<close>, inside \<open>for frame in frames\<close> (the frames still to push in
  this pass), and after the \<open>finally\<close>. The locals \<open>frames\<close> and \<open>delay\<close> are
  carried along.\<close>

datatype pc =
    Loading
  | AtWhile "image list" rat
  | InFor "image list" "image list" rat
  | Exited

record thread =
  t_name :: string
  t_loop :: bool
  t_fps :: int
  t_pc :: pc

text \<open>The fields of the object, and what it does to the world: \<open>buffer\<close> is the
  driver's frame buffer and \<open>pushes\<close> every frame that \<open>display.show()\<close> has made
  visible, the last one being on the device; \<open>logged\<close> is what \<open>logging.error\<close> has
  recorded. \<open>timers\<close> holds every \<open>Timer\<close> object created so far and \<open>timer\<close> is
  the reference \<open>self.timer\<close>, an index into it. \<open>is_animinating\<close> is the attribute
  that the \<open>finally\<close> clause of \<open>_animate\<close> assigns; the object has none of that name
  before.\<close>

record state =
  width :: int
  height :: int
  buffer :: image
  pushes :: "image list"
  canvas :: image
  is_animating :: bool
  is_animinating :: "bool option"
  current_thread :: "thread option"
  timers :: "timer_obj list"
  timer :: "nat option"
  logged :: "log_entry list"

text \<open>\<open>__init__\<close>: a 128 x 32 device, blanked and shown.\<close>

definition initial :: state where
  "initial = \<lparr>width = 128, height = 32,
     buffer = new_image (128, 32), pushes = [new_image (128, 32)],
     canvas = new_image (128, 32),
     is_animating = False, is_animinating = None, current_thread = None,
     timers = [], timer = None, logged = []\<rparr>"

definition init :: "bool \<Rightarrow> state option" where
  "init hardware_available = (if \<not> hardware_available then None else Some initial)"

text \<open>\<open>self.display.image(frame); self.display.show()\<close>\<close>

definition push :: "image \<Rightarrow> state \<Rightarrow> state" where
  "push frame self = self\<lparr>buffer := frame, pushes := pushes self @ [frame]\<rparr>"

definition logging_error :: "log_entry \<Rightarrow> state \<Rightarrow> state" where
  "logging_error e self = self\<lparr>logged := logged self @ [e]\<rparr>"

definition center_image :: "state \<Rightarrow> image \<Rightarrow> image" where
  "center_image self img =
     (let centered_image = new_image (width self, height self) in
      case isize img of (img_width, img_height) \<Rightarrow>
        let x = (width self - img_width) div 2;
            y = (height self - img_height) div 2
        in paste centered_image img (x, y))"

subsection \<open>The animation thread\<close>

text \<open>The \<open>for frame_file in frame_files\<close> loop: the first file that does not decode
  raises out of it.\<close>

fun load_frames :: "state \<Rightarrow> (string \<times> asset_file) list \<Rightarrow> exn + image list" where
  "load_frames self [] = Inr []"
| "load_frames self ((n, Corrupt) # frame_files) = Inl DecodeError"
| "load_frames self ((n, Bitmap frame_image) # frame_files) =
     (case load_frames self frame_files of
        Inl e \<Rightarrow> Inl e
      | Inr frames \<Rightarrow> Inr (center_image self frame_image # frames))"

text \<open>The \<open>finally\<close> clause assigns the attribute \<open>is_animinating\<close>.\<close>

definition finally_exit :: "thread \<Rightarrow> state \<Rightarrow> state" where
  "finally_exit t self =
     self\<lparr>is_animinating := Some False, current_thread := Some (t\<lparr>t_pc := Exited\<rparr>)\<rparr>"

definition except_exit :: "thread \<Rightarrow> exn \<Rightarrow> state \<Rightarrow> state" where
  "except_exit t e self = finally_exit t (logging_error (AnimationError (t_name t) e) self)"

definition goto :: "thread \<Rightarrow> pc \<Rightarrow> state \<Rightarrow> state" where
  "goto t p self = self\<lparr>current_thread := Some (t\<lparr>t_pc := p\<rparr>)\<rparr>"

definition after_load :: "thread \<Rightarrow> rat \<Rightarrow> exn + image list \<Rightarrow> state \<Rightarrow> state" where
  "after_load t delay r self =
     (case r of
        Inl e \<Rightarrow> except_exit t e self
      | Inr frames \<Rightarrow>
          if frames = [] then finally_exit t (logging_error (NoFramesFound (t_name t)) self)
          else goto t (AtWhile frames delay) self)"

definition animate_load :: "env \<Rightarrow> thread \<Rightarrow> state \<Rightarrow> state" where
  "animate_load fs t self =
     (if t_fps t = 0 then except_exit t ZeroDivisionError self
      else
        let delay = 1 / of_int (t_fps t) in
        case user_animations fs (t_name t) of
          Some dir \<Rightarrow> after_load t delay (load_frames self (sorted_bmp dir)) self
        | None \<Rightarrow>
            (case package_animations fs (t_name t) of
               None \<Rightarrow> finally_exit t (logging_error (AnimationNotFound (t_name t)) self)
             | Some dir \<Rightarrow> after_load t delay (load_frames self (sorted_bmp dir)) self))"

text \<open>One step of the thread. \<open>time.sleep\<close> raises \<open>ValueError\<close> on a negative delay.\<close>

definition animate_step :: "env \<Rightarrow> state \<Rightarrow> state" where
  "animate_step fs self =
     (case current_thread self of
        None \<Rightarrow> self
      | Some t \<Rightarrow>
          (case t_pc t of
             Loading \<Rightarrow> animate_load fs t self
           | AtWhile frames delay \<Rightarrow>
               if is_animating self then goto t (InFor frames frames delay) self
               else finally_exit t self
           | InFor todo frames delay \<Rightarrow>
               (case todo of
                  [] \<Rightarrow> if \<not> t_loop t then finally_exit t self
                        else goto t (AtWhile frames delay) self
                | frame # rest \<Rightarrow>
                    if delay < 0 then except_exit t ValueError (push frame self)
                    else goto t (InFor rest frames delay) (push frame self))
           | Exited \<Rightarrow> self))"

definition is_alive :: "state \<Rightarrow> bool" where
  "is_alive self =
     (case current_thread self of None \<Rightarrow> False | Some t \<Rightarrow> t_pc t \<noteq> Exited)"

partial_function (option) join :: "env \<Rightarrow> state \<Rightarrow> state option" where
  "join fs self = (if is_alive self then join fs (animate_step fs self) else Some self)"

subsection \<open>The public operations\<close>

definition stop_animation :: "env \<Rightarrow> state \<Rightarrow> state option" where
  "stop_animation fs self =
     (let self = self\<lparr>is_animating := False\<rparr> in
      if is_alive self
      then (case join fs self of
              None \<Rightarrow> None
            | Some self \<Rightarrow> Some (self\<lparr>current_thread := None\<rparr>))
      else Some self)"

definition play_animation :: "env \<Rightarrow> string \<Rightarrow> bool \<Rightarrow> int \<Rightarrow> state \<Rightarrow> state option" where
  "play_animation fs animation_name loop fps self =
     (case stop_animation fs self of
        None \<Rightarrow> None
      | Some self \<Rightarrow>
          Some (self\<lparr>is_animating := True,
                  current_thread := Some \<lparr>t_name = animation_name, t_loop = loop,
                                          t_fps = fps, t_pc = Loading\<rparr>\<rparr>))"

text \<open>\<open>if self.timer and self.timer.is_alive(): self.timer.cancel()\<close>. A reference is
  always to a timer that exists; the test of the index keeps the function total.\<close>

definition cancel_timer :: "state \<Rightarrow> state" where
  "cancel_timer self =
     (case timer self of
        None \<Rightarrow> self
      | Some i \<Rightarrow>
          if i < length (timers self) \<and> t_status (timers self ! i) = Pending
          then self\<lparr>timers := (timers self)[i := (timers self ! i)\<lparr>t_status := Cancelled\<rparr>]\<rparr>
          else self)"

definition arm_timer :: "rat \<Rightarrow> callback \<Rightarrow> state \<Rightarrow> state" where
  "arm_timer duration f self =
     self\<lparr>timers := timers self @ [\<lparr>t_interval = duration, t_function = f, t_status = Pending\<rparr>],
          timer := Some (length (timers self))\<rparr>"

definition draw_message :: "env \<Rightarrow> string \<Rightarrow> state \<Rightarrow> state" where
  "draw_message fs message self =
     (let blank = new_image (width self, height self) in
      case textbbox fs message of (x0, y0, x1, y1) \<Rightarrow>
        let text_width = x1 - x0;
            text_height = y1 - y0;
            x = (width self - text_width) div 2;
            y = (height self - text_height) div 2;
            img = draw_text fs blank (x, y) message
        in push img (self\<lparr>canvas := img\<rparr>))"

definition display_message :: "env \<Rightarrow> string \<Rightarrow> rat \<Rightarrow> bool \<Rightarrow> state \<Rightarrow> state option" where
  "display_message fs message duration return_to_idle self =
     (case stop_animation fs self of
        None \<Rightarrow> None
      | Some self \<Rightarrow>
          let self = draw_message fs message (cancel_timer self) in
          if duration > 0 then
            (if return_to_idle then Some (arm_timer duration DisplayIdle self)
             else Some (arm_timer duration Clear self))
          else Some self)"

definition show_file :: "string \<Rightarrow> asset_file \<Rightarrow> state \<Rightarrow> state" where
  "show_file image_name f self =
     (case f of
        Corrupt \<Rightarrow> logging_error (ImageError image_name DecodeError) self
      | Bitmap img \<Rightarrow> push (center_image self (invert img)) self)"

definition display_static_image :: "env \<Rightarrow> string \<Rightarrow> state \<Rightarrow> state option" where
  "display_static_image fs image_name self =
     (case stop_animation fs self of
        None \<Rightarrow> None
      | Some self \<Rightarrow>
          let self = cancel_timer self in
          (case user_icons fs image_name of
             Some f \<Rightarrow> Some (show_file image_name f self)
           | None \<Rightarrow>
               (case package_icons fs image_name of
                  None \<Rightarrow> Some (logging_error (ImageNotFound image_name) self)
                | Some f \<Rightarrow> Some (show_file image_name f self))))"

definition display_idle :: "env \<Rightarrow> state \<Rightarrow> state option" where
  "display_idle fs self = play_animation fs ''idle'' True 2 self"

definition clear :: "env \<Rightarrow> state \<Rightarrow> state option" where
  "clear fs self =
     (case stop_animation fs self of
        None \<Rightarrow> None
      | Some self \<Rightarrow>
          Some (push (new_image (width self, height self)) (cancel_timer self)))"

text \<open>The optional arguments: \<open>loop=False, fps=10\<close> and \<open>duration=0, return_to_idle=True\<close>.
  \<open>None\<close> is an argument the caller left out.\<close>

definition play_animation_call ::
  "env \<Rightarrow> string \<Rightarrow> bool option \<Rightarrow> int option \<Rightarrow> state \<Rightarrow> state option" where
  "play_animation_call fs animation_name loop fps self =
     play_animation fs animation_name
       (case loop of None \<Rightarrow> False | Some l \<Rightarrow> l)
       (case fps of None \<Rightarrow> 10 | Some f \<Rightarrow> f) self"

definition display_message_call ::
  "env \<Rightarrow> string \<Rightarrow> rat option \<Rightarrow> bool option \<Rightarrow> state \<Rightarrow> state option" where
  "display_message_call fs message duration return_to_idle self =
     display_message fs message
       (case duration of None \<Rightarrow> 0 | Some d \<Rightarrow> d)
       (case return_to_idle of None \<Rightarrow> True | Some r \<Rightarrow> r) self"

text \<open>\<open>threading.Timer.run\<close> once the interval has passed: the function is called unless
  the timer was cancelled, and the timer is alive until the function has returned.\<close>

definition timer_fires :: "env \<Rightarrow> nat \<Rightarrow> state \<Rightarrow> state option" where
  "timer_fires fs i self =
     (if i < length (timers self) \<and> t_status (timers self ! i) = Pending
      then (case (case t_function (timers self ! i) of
                    DisplayIdle \<Rightarrow> display_idle fs self
                  | Clear \<Rightarrow> clear fs self) of
              None \<Rightarrow> None
            | Some self \<Rightarrow>
                Some (self\<lparr>timers := (timers self)[i := (timers self ! i)\<lparr>t_status := Fired\<rparr>]\<rparr>))
      else Some self)"

declare join.simps [code]

subsection \<open>Measures of the animation thread\<close>

definition steps_left :: "state \<Rightarrow> nat" where
  "steps_left self =
     (case current_thread self of
        None \<Rightarrow> 0
      | Some t \<Rightarrow>
          (case t_pc t of
             Loading \<Rightarrow> 2
           | AtWhile frames delay \<Rightarrow> 1
           | InFor todo frames delay \<Rightarrow> length todo + 2
           | Exited \<Rightarrow> 0))"

definition pending_frames :: "state \<Rightarrow> image list" where
  "pending_frames self =
     (case current_thread self of
        None \<Rightarrow> []
      | Some t \<Rightarrow>
          (case t_pc t of
             InFor todo frames delay \<Rightarrow> if delay < 0 then take 1 todo else todo
           | _ \<Rightarrow> []))"

definition same_object :: "state \<Rightarrow> state \<Rightarrow> bool" where
  "same_object s s' =
     (width s' = width s \<and> height s' = height s \<and> canvas s' = canvas s \<and>
      is_animating s' = is_animating s \<and> timers s' = timers s \<and> timer s' = timer s)"

subsection \<open>Timers that are alive\<close>

definition armed :: "state \<Rightarrow> timer_obj list" where
  "armed self = filter (\<lambda>t. t_status t = Pending) (timers self)"

text \<open>No timer is alive but the one \<open>self.timer\<close> refers to.\<close>

definition timer_ok :: "state \<Rightarrow> bool" where
  "timer_ok self =
     list_all (\<lambda>i. t_status (timers self ! i) \<noteq> Pending \<or> timer self = Some i)
       [0..<length (timers self)]"

subsection \<open>Decoded sources\<close>



subsection \<open>A concrete installation\<close>

text \<open>The package holds three frames for \<open>spin\<close> (and a file that is no bitmap), two
  frames for \<open>idle\<close> and the icons \<open>ok\<close> and \<open>bad\<close>, the second one corrupt. The
  user overrides \<open>idle\<close> with a single frame and the icon \<open>ok\<close>. The font draws each
  character as a block of 6 x 11 pixels.\<close>

definition dot :: image where
  "dot = \<lparr>isize = (1, 1), rows = [[True]]\<rparr>"

definition glyph :: image where
  "glyph = \<lparr>isize = (2, 2), rows = [[True, False], [False, False]]\<rparr>"

definition block :: "string \<Rightarrow> image" where
  "block m = new_image (6 * int (length m), 11)\<lparr>rows :=
     replicate 11 (replicate (6 * length m) True)\<rparr>"

definition spin_files :: "(string \<times> asset_file) list" where
  "spin_files = [(''2.bmp'', Bitmap glyph), (''notes.txt'', Corrupt),
                 (''0.bmp'', Bitmap dot), (''1.bmp'', Bitmap dot)]"

definition demo_env :: env where
  "demo_env = \<lparr>
     user_animations = (\<lambda>n.
       if n = ''idle'' then Some [(''0.bmp'', Bitmap glyph)] else None),
     package_animations = (\<lambda>n.
       if n = ''spin'' then Some spin_files
       else if n = ''idle'' then Some [(''0.bmp'', Bitmap dot), (''1.bmp'', Bitmap dot)]
       else None),
     user_icons = (\<lambda>n. if n = ''ok'' then Some (Bitmap glyph) else None),
     package_icons = (\<lambda>n.
       if n = ''ok'' then Some (Bitmap dot)
       else if n = ''bad'' then Some Corrupt
       else None),
     textbbox = (\<lambda>m. (0, 0, 6 * int (length m), 11)),
     draw_text = (\<lambda>img pos m. paste img (block m) pos)\<rparr>"

text \<open>Start an animation and wait for its thread to end.\<close>

definition play_to_end :: "env \<Rightarrow> string \<Rightarrow> bool \<Rightarrow> int \<Rightarrow> state \<Rightarrow> state option" where
  "play_to_end fs animation_name loop fps self =
     (case play_animation fs animation_name loop fps self of
        None \<Rightarrow> None
      | Some self \<Rightarrow> join fs self)"

text \<open>The frames that reach the device while \<open>stop_animation\<close> blocks.\<close>

definition pushed_while_stopping :: "env \<Rightarrow> state \<Rightarrow> image list option" where
  "pushed_while_stopping fs self =
     (case stop_animation fs self of
        None \<Rightarrow> None
      | Some self' \<Rightarrow> Some (drop (length (pushes self)) (pushes self')))"

text \<open>\<open>spin\<close> looping at 10 frames a second on the fresh device, at the moment its
  thread has loaded the frames, tested the flag and pushed the first frame.\<close>

definition spin_after_first_frame :: "state option" where
  "spin_after_first_frame =
     map_option (animate_step demo_env \<circ> animate_step demo_env \<circ> animate_step demo_env)
       (play_animation demo_env ''spin'' True 10 initial)"

text \<open>A message shown for five seconds that is to be cleared afterwards, then \<open>spin\<close>
  started as a looping animation before the five seconds have passed.\<close>

definition message_then_spin :: "state option" where
  "message_then_spin =
     Option.bind (display_message demo_env ''hi'' 5 False initial)
       (play_animation demo_env ''spin'' True 10)"

text \<open>An image larger than the device: 130 x 34, set in its second column.\<close>

definition oversize :: image where
  "oversize = \<lparr>isize = (130, 34), rows = replicate 34 ([False, True] @ replicate 128 False)\<rparr>"

text \<open>The object after \<open>display_message("a", 3, False)\<close> on the fresh device.\<close>

definition after_message :: state where
  "after_message =
     arm_timer 3 Clear (draw_message demo_env ''a'' (cancel_timer (initial\<lparr>is_animating := False\<rparr>)))"



section \<open>Properties\<close>

subsection \<open>Field lemmas\<close>

lemma push_simps [simp]:
  "width (push f s) = width s"
  "height (push f s) = height s"
  "buffer (push f s) = f"
  "pushes (push f s) = pushes s @ [f]"
  "canvas (push f s) = canvas s"
  "is_animating (push f s) = is_animating s"
  "is_animinating (push f s) = is_animinating s"
  "current_thread (push f s) = current_thread s"
  "timers (push f s) = timers s"
  "timer (push f s) = timer s"
  "logged (push f s) = logged s"
  by (simp_all add: push_def)

lemma logging_error_simps [simp]:
  "width (logging_error e s) = width s"
  "height (logging_error e s) = height s"
  "buffer (logging_error e s) = buffer s"
  "pushes (logging_error e s) = pushes s"
  "canvas (logging_error e s) = canvas s"
  "is_animating (logging_error e s) = is_animating s"
  "is_animinating (logging_error e s) = is_animinating s"
  "current_thread (logging_error e s) = current_thread s"
  "timers (logging_error e s) = timers s"
  "timer (logging_error e s) = timer s"
  "logged (logging_error e s) = logged s @ [e]"
  by (simp_all add: logging_error_def)

lemma goto_simps [simp]:
  "width (goto t p s) = width s"
  "height (goto t p s) = height s"
  "buffer (goto t p s) = buffer s"
  "pushes (goto t p s) = pushes s"
  "canvas (goto t p s) = canvas s"
  "is_animating (goto t p s) = is_animating s"
  "is_animinating (goto t p s) = is_animinating s"
  "current_thread (goto t p s) = Some (t\<lparr>t_pc := p\<rparr>)"
  "timers (goto t p s) = timers s"
  "timer (goto t p s) = timer s"
  "logged (goto t p s) = logged s"
  by (simp_all add: goto_def)

lemma finally_exit_simps [simp]:
  "width (finally_exit t s) = width s"
  "height (finally_exit t s) = height s"
  "buffer (finally_exit t s) = buffer s"
  "pushes (finally_exit t s) = pushes s"
  "canvas (finally_exit t s) = canvas s"
  "is_animating (finally_exit t s) = is_animating s"
  "is_animinating (finally_exit t s) = Some False"
  "current_thread (finally_exit t s) = Some (t\<lparr>t_pc := Exited\<rparr>)"
  "timers (finally_exit t s) = timers s"
  "timer (finally_exit t s) = timer s"
  "logged (finally_exit t s) = logged s"
  by (simp_all add: finally_exit_def)

lemma except_exit_simps [simp]:
  "width (except_exit t e s) = width s"
  "height (except_exit t e s) = height s"
  "buffer (except_exit t e s) = buffer s"
  "pushes (except_exit t e s) = pushes s"
  "canvas (except_exit t e s) = canvas s"
  "is_animating (except_exit t e s) = is_animating s"
  "is_animinating (except_exit t e s) = Some False"
  "current_thread (except_exit t e s) = Some (t\<lparr>t_pc := Exited\<rparr>)"
  "timers (except_exit t e s) = timers s"
  "timer (except_exit t e s) = timer s"
  "logged (except_exit t e s) = logged s @ [AnimationError (t_name t) e]"
  by (simp_all add: except_exit_def)

lemma same_object_refl [simp]: "same_object s s"
  by (simp add: same_object_def)

lemma same_object_trans: "same_object a b \<Longrightarrow> same_object b c \<Longrightarrow> same_object a c"
  by (simp add: same_object_def)

lemma after_load_simps [simp]:
  "width (after_load t d r s) = width s"
  "height (after_load t d r s) = height s"
  "buffer (after_load t d r s) = buffer s"
  "pushes (after_load t d r s) = pushes s"
  "canvas (after_load t d r s) = canvas s"
  "is_animating (after_load t d r s) = is_animating s"
  "timers (after_load t d r s) = timers s"
  "timer (after_load t d r s) = timer s"
  by (simp_all add: after_load_def split: sum.splits)

lemma after_load_thread:
  "current_thread (after_load t d r s) =
     Some (t\<lparr>t_pc := (case r of Inl e \<Rightarrow> Exited
                       | Inr frames \<Rightarrow> if frames = [] then Exited else AtWhile frames d)\<rparr>)"
  by (simp add: after_load_def split: sum.splits)

lemma animate_load_simps [simp]:
  "width (animate_load fs t s) = width s"
  "height (animate_load fs t s) = height s"
  "buffer (animate_load fs t s) = buffer s"
  "pushes (animate_load fs t s) = pushes s"
  "canvas (animate_load fs t s) = canvas s"
  "is_animating (animate_load fs t s) = is_animating s"
  "timers (animate_load fs t s) = timers s"
  "timer (animate_load fs t s) = timer s"
  by (simp_all add: animate_load_def Let_def split: option.splits)

lemma after_load_stopped:
  "steps_left (after_load t d r s) \<le> Suc 0" "pending_frames (after_load t d r s) = []"
  by (simp_all add: steps_left_def pending_frames_def after_load_thread split: sum.splits)

lemma animate_load_stopped:
  "steps_left (animate_load fs t s) \<le> Suc 0" "pending_frames (animate_load fs t s) = []"
  by (simp_all add: animate_load_def Let_def after_load_stopped
      steps_left_def [of "finally_exit t s" for t s]
      steps_left_def [of "except_exit t e s" for t e s]
      pending_frames_def [of "finally_exit t s" for t s]
      pending_frames_def [of "except_exit t e s" for t e s] split: option.splits)

lemma animate_step_simps [simp]:
  "width (animate_step fs s) = width s"
  "height (animate_step fs s) = height s"
  "canvas (animate_step fs s) = canvas s"
  "is_animating (animate_step fs s) = is_animating s"
  "timers (animate_step fs s) = timers s"
  "timer (animate_step fs s) = timer s"
  by (simp_all add: animate_step_def split: option.splits pc.splits list.splits)


lemma animate_step_same_object: "same_object s (animate_step fs s)"
  by (simp add: same_object_def)

lemma not_alive_pending: "\<not> is_alive s \<Longrightarrow> pending_frames s = []"
  by (auto simp: is_alive_def pending_frames_def split: option.splits pc.splits)


lemma stopped_step:
  assumes "is_alive s" "\<not> is_animating s"
  shows "steps_left (animate_step fs s) < steps_left s"
    and "pushes (animate_step fs s) @ pending_frames (animate_step fs s)
           = pushes s @ pending_frames s"
proof -
  from assms(1) obtain t where t: "current_thread s = Some t" "t_pc t \<noteq> Exited"
    by (auto simp: is_alive_def split: option.splits)
  show "steps_left (animate_step fs s) < steps_left s"
  proof (cases "t_pc t")
    case Loading
    have "steps_left (animate_load fs t s) \<le> Suc 0" by (rule animate_load_stopped)
    then show ?thesis using t Loading
      by (simp add: animate_step_def steps_left_def [of s])
  next
    case (AtWhile frames delay)
    then show ?thesis using t assms(2)
      by (simp add: animate_step_def steps_left_def)
  next
    case (InFor todo frames delay)
    then show ?thesis using t
      by (cases todo) (simp_all add: animate_step_def steps_left_def)
  next
    case Exited
    then show ?thesis using t by simp
  qed
  show "pushes (animate_step fs s) @ pending_frames (animate_step fs s)
           = pushes s @ pending_frames s"
  proof (cases "t_pc t")
    case Loading
    then show ?thesis using t
      by (simp add: animate_step_def pending_frames_def [of s] animate_load_stopped)
  next
    case (AtWhile frames delay)
    then show ?thesis using t assms(2)
      by (simp add: animate_step_def pending_frames_def)
  next
    case (InFor todo frames delay)
    then show ?thesis using t
      by (cases todo) (simp_all add: animate_step_def pending_frames_def)
  next
    case Exited
    then show ?thesis using t by simp
  qed
qed

lemma join_stopped:
  "\<not> is_animating s \<Longrightarrow> steps_left s \<le> n \<Longrightarrow>
     \<exists>s'. join fs s = Some s' \<and> \<not> is_alive s' \<and> same_object s s' \<and>
          pushes s' = pushes s @ pending_frames s"
proof (induction n arbitrary: s)
  case 0
  then have "\<not> is_alive s"
    by (auto simp: steps_left_def is_alive_def split: option.splits pc.splits)
  then show ?case
    by (simp add: join.simps not_alive_pending)
next
  case (Suc n)
  show ?case
  proof (cases "is_alive s")
    case False
    then show ?thesis by (simp add: join.simps not_alive_pending)
  next
    case True
    let ?s1 = "animate_step fs s"
    have so: "same_object s ?s1" by (rule animate_step_same_object)
    have na: "\<not> is_animating ?s1" using Suc.prems by simp
    have "steps_left ?s1 \<le> n"
      using stopped_step(1)[OF True Suc.prems(1), of fs] Suc.prems(2) by simp
    from Suc.IH[OF na this] obtain s' where
      s': "join fs ?s1 = Some s'" "\<not> is_alive s'" "same_object ?s1 s'"
          "pushes s' = pushes ?s1 @ pending_frames ?s1" by blast
    have "join fs s = Some s'" using True s'(1) by (subst join.simps) simp
    moreover have "same_object s s'" using so s'(3) by (rule same_object_trans)
    moreover have "pushes s' = pushes s @ pending_frames s"
      using s'(4) stopped_step(2)[OF True Suc.prems(1), of fs] by simp
    ultimately show ?thesis using s'(2) by blast
  qed
qed

subsection \<open>Stopping always returns\<close>

lemma is_alive_flag [simp]: "is_alive (s\<lparr>is_animating := b\<rparr>) = is_alive s"
  by (simp add: is_alive_def)

lemma stop_animation_idle:
  "\<not> is_alive s \<Longrightarrow> stop_animation fs s = Some (s\<lparr>is_animating := False\<rparr>)"
  by (simp add: stop_animation_def)

lemma stop_animation_total:
  obtains s' where "stop_animation fs s = Some s'" "\<not> is_alive s'" "\<not> is_animating s'"
    "width s' = width s" "height s' = height s" "canvas s' = canvas s"
    "timers s' = timers s" "timer s' = timer s"
    "pushes s' = pushes s @ pending_frames s"
proof (cases "is_alive s")
  case False
  show ?thesis
  proof (rule that)
    show "stop_animation fs s = Some (s\<lparr>is_animating := False\<rparr>)"
      using False by (rule stop_animation_idle)
  qed (use False in \<open>simp_all add: not_alive_pending\<close>)
next
  case True
  let ?s0 = "s\<lparr>is_animating := False\<rparr>"
  have "\<not> is_animating ?s0" by simp
  from join_stopped[OF this le_refl, of fs] obtain s1 where
    s1: "join fs ?s0 = Some s1" "\<not> is_alive s1" "same_object ?s0 s1"
        "pushes s1 = pushes ?s0 @ pending_frames ?s0" by blast
  have pf: "pending_frames ?s0 = pending_frames s" by (simp add: pending_frames_def)
  show ?thesis
  proof (rule that)
    show "stop_animation fs s = Some (s1\<lparr>current_thread := None\<rparr>)"
      using True s1(1) by (simp add: stop_animation_def)
  qed (use s1 pf in \<open>simp_all add: same_object_def is_alive_def\<close>)
qed

subsection \<open>Pixels of a centred image\<close>

lemma new_image_simps [simp]:
  "isize (new_image (w, h)) = (w, h)"
  "rows (new_image (w, h)) = replicate (nat h) (replicate (nat w) False)"
  by (simp_all add: new_image_def)

lemma getpixel_new_image:
  "0 \<le> X \<Longrightarrow> X < w \<Longrightarrow> 0 \<le> Y \<Longrightarrow> Y < h \<Longrightarrow> getpixel (new_image (w, h)) X Y = False"
  by (simp add: getpixel_def)

lemma upto_nth: "0 \<le> X \<Longrightarrow> X < n \<Longrightarrow> [0..n - 1] ! nat X = X"
  by (simp add: nth_upto)

lemma paste_size [simp]: "isize (paste dst src pos) = isize dst"
  by (simp add: paste_def split: prod.splits)

lemma paste_rows:
  "isize dst = (dw, dh) \<Longrightarrow> length (rows (paste dst src pos)) = nat dh \<and>
     list_all (\<lambda>r. length r = nat dw) (rows (paste dst src pos))"
  by (simp add: paste_def list_all_iff split: prod.splits)

lemma paste_pixel:
  assumes "isize dst = (dw, dh)" "isize src = (w, h)"
    and "0 \<le> X" "X < dw" "0 \<le> Y" "Y < dh"
  shows "getpixel (paste dst src (x, y)) X Y =
     (if x \<le> X \<and> X < x + w \<and> y \<le> Y \<and> Y < y + h
      then getpixel src (X - x) (Y - y) else getpixel dst X Y)"
proof -
  have "rows (paste dst src (x, y)) ! nat Y ! nat X =
     (if x \<le> X \<and> X < x + w \<and> y \<le> Y \<and> Y < y + h
      then getpixel src (X - x) (Y - y) else getpixel dst X Y)"
    using assms by (simp add: paste_def upto_nth)
  then show ?thesis by (simp add: getpixel_def [of "paste dst src (x, y)"])
qed

lemma center_image_size [simp]:
  "isize (center_image self img) = (width self, height self)"
  by (simp add: center_image_def Let_def split: prod.splits)

lemma center_image_rows:
  "length (rows (center_image self img)) = nat (height self) \<and>
     list_all (\<lambda>r. length r = nat (width self)) (rows (center_image self img))"
  by (simp add: center_image_def Let_def paste_rows [where dw = "width self" and dh = "height self"] split: prod.splits)

lemma center_image_pixel:
  assumes "isize img = (w, h)" "0 \<le> X" "X < width self" "0 \<le> Y" "Y < height self"
  shows "getpixel (center_image self img) X Y =
     (if (width self - w) div 2 \<le> X \<and> X < (width self - w) div 2 + w \<and>
         (height self - h) div 2 \<le> Y \<and> Y < (height self - h) div 2 + h
      then getpixel img (X - (width self - w) div 2) (Y - (height self - h) div 2)
      else False)"
  using assms
  by (simp add: center_image_def Let_def getpixel_new_image
      paste_pixel [where dw = "width self" and dh = "height self" and w = w and h = h])

subsection \<open>Field lemmas of the drawing operations\<close>

lemma cancel_timer_simps [simp]:
  "width (cancel_timer s) = width s"
  "height (cancel_timer s) = height s"
  "buffer (cancel_timer s) = buffer s"
  "pushes (cancel_timer s) = pushes s"
  "canvas (cancel_timer s) = canvas s"
  "is_animating (cancel_timer s) = is_animating s"
  "is_animinating (cancel_timer s) = is_animinating s"
  "current_thread (cancel_timer s) = current_thread s"
  "timer (cancel_timer s) = timer s"
  "logged (cancel_timer s) = logged s"
  by (simp_all add: cancel_timer_def split: option.splits)

lemma arm_timer_simps [simp]:
  "width (arm_timer d f s) = width s"
  "height (arm_timer d f s) = height s"
  "buffer (arm_timer d f s) = buffer s"
  "pushes (arm_timer d f s) = pushes s"
  "canvas (arm_timer d f s) = canvas s"
  "is_animating (arm_timer d f s) = is_animating s"
  "is_animinating (arm_timer d f s) = is_animinating s"
  "current_thread (arm_timer d f s) = current_thread s"
  "timers (arm_timer d f s) = timers s @ [\<lparr>t_interval = d, t_function = f, t_status = Pending\<rparr>]"
  "timer (arm_timer d f s) = Some (length (timers s))"
  "logged (arm_timer d f s) = logged s"
  by (simp_all add: arm_timer_def)

lemma draw_message_simps [simp]:
  "width (draw_message fs m s) = width s"
  "height (draw_message fs m s) = height s"
  "is_animating (draw_message fs m s) = is_animating s"
  "is_animinating (draw_message fs m s) = is_animinating s"
  "current_thread (draw_message fs m s) = current_thread s"
  "timers (draw_message fs m s) = timers s"
  "timer (draw_message fs m s) = timer s"
  "logged (draw_message fs m s) = logged s"
  by (simp_all add: draw_message_def Let_def split: prod.splits)

lemma show_file_simps [simp]:
  "width (show_file n f s) = width s"
  "height (show_file n f s) = height s"
  "canvas (show_file n f s) = canvas s"
  "is_animating (show_file n f s) = is_animating s"
  "is_animinating (show_file n f s) = is_animinating s"
  "current_thread (show_file n f s) = current_thread s"
  "timers (show_file n f s) = timers s"
  "timer (show_file n f s) = timer s"
  by (simp_all add: show_file_def split: asset_file.splits)


subsection \<open>At most one timer is alive\<close>

lemma timer_ok_cong: "timers s' = timers s \<Longrightarrow> timer s' = timer s \<Longrightarrow> timer_ok s' = timer_ok s"
  by (simp add: timer_ok_def)

lemma armed_cong: "timers s' = timers s \<Longrightarrow> armed s' = armed s"
  by (simp add: armed_def)

lemma armed_empty_iff:
  "armed s = [] \<longleftrightarrow> (\<forall>i<length (timers s). t_status (timers s ! i) \<noteq> Pending)"
  by (simp add: armed_def filter_empty_conv all_set_conv_all_nth)

lemma timer_okD:
  "timer_ok s \<Longrightarrow> i < length (timers s) \<Longrightarrow> t_status (timers s ! i) = Pending \<Longrightarrow> timer s = Some i"
  by (auto simp: timer_ok_def list_all_iff)

lemma length_timers_cancel [simp]: "length (timers (cancel_timer s)) = length (timers s)"
  by (simp add: cancel_timer_def split: option.splits)

lemma cancel_timer_armed:
  assumes "timer_ok s"
  shows "armed (cancel_timer s) = []"
proof -
  have "t_status (timers (cancel_timer s) ! j) \<noteq> Pending" if j: "j < length (timers s)" for j
  proof (cases "timer s")
    case None
    then show ?thesis using timer_okD [OF assms j] by (auto simp: cancel_timer_def)
  next
    case (Some i)
    show ?thesis
    proof (cases "j = i")
      case True
      then show ?thesis using Some j by (simp add: cancel_timer_def)
    next
      case False
      then have "t_status (timers s ! j) \<noteq> Pending"
        using timer_okD [OF assms j] Some by auto
      then show ?thesis using Some False j by (simp add: cancel_timer_def)
    qed
  qed
  then show ?thesis by (simp add: armed_empty_iff)
qed

lemma armed_arm_timer:
  "armed (arm_timer d f s) = armed s @ [\<lparr>t_interval = d, t_function = f, t_status = Pending\<rparr>]"
  by (simp add: armed_def)

lemma timer_ok_initial: "timer_ok initial"
  by (simp add: timer_ok_def initial_def)

lemma timer_ok_iff:
  "timer_ok s \<longleftrightarrow> (\<forall>i<length (timers s). t_status (timers s ! i) = Pending \<longrightarrow> timer s = Some i)"
  by (auto simp: timer_ok_def list_all_iff)

lemma timer_ok_arm_timer: "armed s = [] \<Longrightarrow> timer_ok (arm_timer d f s)"
  by (auto simp: timer_ok_iff armed_empty_iff nth_append)

lemma timer_ok_no_armed: "armed s = [] \<Longrightarrow> timer_ok s"
  by (simp add: timer_ok_iff armed_empty_iff)

lemma timer_ok_cancel_timer: "timer_ok s \<Longrightarrow> timer_ok (cancel_timer s)"
  by (rule timer_ok_no_armed) (rule cancel_timer_armed)



lemma display_message_eq:
  assumes "stop_animation fs self = Some s1"
  shows "display_message fs message duration return_to_idle self =
     Some (if duration > 0
           then arm_timer duration (if return_to_idle then DisplayIdle else Clear)
                  (draw_message fs message (cancel_timer s1))
           else draw_message fs message (cancel_timer s1))"
  unfolding display_message_def assms Let_def option.case
  by (cases return_to_idle; cases "duration > 0"; simp only: if_True if_False)

subsection \<open>The static image\<close>

lemma display_static_image_eq:
  assumes "stop_animation fs self = Some s1"
  shows "display_static_image fs image_name self =
     Some (case user_icons fs image_name of
             Some f \<Rightarrow> show_file image_name f (cancel_timer s1)
           | None \<Rightarrow>
               (case package_icons fs image_name of
                  None \<Rightarrow> logging_error (ImageNotFound image_name) (cancel_timer s1)
                | Some f \<Rightarrow> show_file image_name f (cancel_timer s1)))"
  unfolding display_static_image_def assms Let_def option.case
  by (cases "user_icons fs image_name"; cases "package_icons fs image_name";
      simp only: option.case)

text \<open>Every operation keeps \<open>timer_ok\<close>.\<close>

lemma timer_ok_animate_step: "timer_ok (animate_step fs s) = timer_ok s"
  by (rule timer_ok_cong) simp_all

lemma timer_ok_stop_animation:
  assumes "timer_ok s" "stop_animation fs s = Some s'"
  shows "timer_ok s'"
proof -
  obtain s1 where "stop_animation fs s = Some s1" "timers s1 = timers s" "timer s1 = timer s"
    by (rule stop_animation_total)
  then show ?thesis using assms timer_ok_cong [of s' s] by simp
qed

lemma timer_ok_play_animation:
  assumes "timer_ok s" "play_animation fs n l f s = Some s'"
  shows "timer_ok s'"
proof -
  from assms(2) obtain s1 where s1: "stop_animation fs s = Some s1"
    "s' = s1\<lparr>is_animating := True,
            current_thread := Some \<lparr>t_name = n, t_loop = l, t_fps = f, t_pc = Loading\<rparr>\<rparr>"
    by (auto simp: play_animation_def split: option.splits)
  have "timer_ok s1" using assms(1) s1(1) by (rule timer_ok_stop_animation)
  then show ?thesis using timer_ok_cong [of s' s1] s1(2) by simp
qed

lemma timer_ok_clear:
  assumes "timer_ok s" "clear fs s = Some s'"
  shows "timer_ok s'"
proof -
  from assms(2) obtain s1 where s1: "stop_animation fs s = Some s1"
    "s' = push (new_image (width s1, height s1)) (cancel_timer s1)"
    by (auto simp: clear_def split: option.splits)
  have "timer_ok s1" using assms(1) s1(1) by (rule timer_ok_stop_animation)
  then have "timer_ok (cancel_timer s1)" by (rule timer_ok_cancel_timer)
  then show ?thesis using timer_ok_cong [of s' "cancel_timer s1"] s1(2) by simp
qed

lemma timer_ok_display_static_image:
  assumes "timer_ok s" "display_static_image fs n s = Some s'"
  shows "timer_ok s'"
proof -
  obtain s1 where s1: "stop_animation fs s = Some s1"
    by (rule stop_animation_total)
  have "timer_ok s1" using assms(1) s1 by (rule timer_ok_stop_animation)
  then have c: "timer_ok (cancel_timer s1)" by (rule timer_ok_cancel_timer)
  have "timers s' = timers (cancel_timer s1) \<and> timer s' = timer (cancel_timer s1)"
    using assms(2) unfolding display_static_image_eq [OF s1]
    by (auto split: option.splits)
  then show ?thesis using c timer_ok_cong [of s' "cancel_timer s1"] by simp
qed

lemma timer_ok_set_fired:
  assumes "timer_ok s"
  shows "timer_ok (s\<lparr>timers := (timers s)[i := (timers s ! i)\<lparr>t_status := Fired\<rparr>]\<rparr>)"
proof (cases "i < length (timers s)")
  case True
  then show ?thesis using assms by (auto simp: timer_ok_iff nth_list_update split: if_splits)
next
  case False
  then show ?thesis using assms by (simp add: timer_ok_iff)
qed

lemma timer_ok_timer_fires:
  assumes "timer_ok s" "timer_fires fs i s = Some s'"
  shows "timer_ok s'"
proof (cases "i < length (timers s) \<and> t_status (timers s ! i) = Pending")
  case False
  then show ?thesis using assms by (auto simp: timer_fires_def)
next
  case True
  then obtain s1 where s1:
    "(case t_function (timers s ! i) of DisplayIdle \<Rightarrow> display_idle fs s | Clear \<Rightarrow> clear fs s)
       = Some s1"
    "s' = s1\<lparr>timers := (timers s1)[i := (timers s1 ! i)\<lparr>t_status := Fired\<rparr>]\<rparr>"
    using assms(2) by (auto simp: timer_fires_def split: option.splits)
  have "timer_ok s1"
    using s1(1) assms(1) timer_ok_clear [of s fs s1]
      timer_ok_play_animation [of s fs "''idle''" True 2 s1]
    by (auto simp: display_idle_def split: callback.splits)
  then show ?thesis unfolding s1(2) by (rule timer_ok_set_fired)
qed

subsection \<open>Passes of the animation thread\<close>



lemma funpow_is_animating [simp]:
  "is_animating ((animate_step fs ^^ n) s) = is_animating s"
  by (induction n) simp_all





lemma join_exited: "\<not> is_alive s \<Longrightarrow> join fs s = Some s"
  by (subst join.simps) simp

lemma join_step: "is_alive s \<Longrightarrow> join fs s = join fs (animate_step fs s)"
  by (subst join.simps) simp



lemma join_env_cong:
  assumes "\<And>s. animate_step fs' s = animate_step fs s"
  shows "\<not> is_animating s \<Longrightarrow> steps_left s \<le> n \<Longrightarrow> join fs' s = join fs s"
proof (induction n arbitrary: s)
  case 0
  then have "\<not> is_alive s"
    by (auto simp: steps_left_def is_alive_def split: option.splits pc.splits)
  then show ?case by (simp add: join_exited)
next
  case (Suc n)
  show ?case
  proof (cases "is_alive s")
    case False
    then show ?thesis by (simp add: join_exited)
  next
    case True
    have "\<not> is_animating (animate_step fs s)" using Suc.prems(1) by simp
    moreover have "steps_left (animate_step fs s) \<le> n"
      using stopped_step(1) [OF True Suc.prems(1), of fs] Suc.prems(2) by simp
    ultimately have "join fs' (animate_step fs s) = join fs (animate_step fs s)"
      by (rule Suc.IH)
    then show ?thesis
      using join_step [OF True, of fs] join_step [OF True, of fs'] assms by simp
  qed
qed

lemma stop_animation_env_cong:
  assumes "\<And>s. animate_step fs' s = animate_step fs s"
  shows "stop_animation fs' s = stop_animation fs s"
proof -
  have "join fs' (s\<lparr>is_animating := False\<rparr>) = join fs (s\<lparr>is_animating := False\<rparr>)"
    by (rule join_env_cong [OF assms, where n = "steps_left (s\<lparr>is_animating := False\<rparr>)"])
       simp_all
  then show ?thesis by (simp add: stop_animation_def Let_def)
qed

lemma animate_load_package_icons [simp]:
  "animate_load (fs\<lparr>package_icons := q\<rparr>) t s = animate_load fs t s"
  by (simp add: animate_load_def Let_def split: option.splits)

lemma animate_step_package_icons [simp]:
  "animate_step (fs\<lparr>package_icons := q\<rparr>) s = animate_step fs s"
  by (simp add: animate_step_def split: option.splits pc.splits)



lemmas run_defs = play_to_end_def play_animation_def stop_animation_def is_alive_def initial_def
  join.simps animate_step_def animate_load_def after_load_def demo_env_def spin_files_def
  sorted_bmp_def
  endswith_def goto_def finally_exit_def except_exit_def logging_error_def push_def

section \<open>The statements of the specification\<close>

text \<open>
  C1. The specification has it that on every exit path of the animation loop (the end
  of a pass that does not loop, the return for a missing asset, a caught exception) the
  flag \<open>is_animating\<close> is reset to false. The \<open>finally\<close> clause assigns
  \<open>is_animinating\<close>, another attribute, and no step of the thread writes
  \<open>is_animating\<close>. So on each of the three paths the thread ends with
  \<open>is_animating\<close> still true: here for the one-frame animation \<open>idle\<close> played
  once, for a name found nowhere, and for a rate of zero frames a second.
\<close>

theorem animate_leaves_is_animating_set:
  "is_animating (animate_step fs s) = is_animating s \<and>
   map_option is_animating (play_to_end demo_env ''idle'' False 10 initial) = Some True \<and>
   map_option is_animinating (play_to_end demo_env ''idle'' False 10 initial) = Some (Some False) \<and>
   map_option is_alive (play_to_end demo_env ''idle'' False 10 initial) = Some False \<and>
   map_option logged (play_to_end demo_env ''idle'' False 10 initial) = Some [] \<and>
   map_option is_animating (play_to_end demo_env ''nope'' False 10 initial) = Some True \<and>
   map_option is_alive (play_to_end demo_env ''nope'' False 10 initial) = Some False \<and>
   map_option logged (play_to_end demo_env ''nope'' False 10 initial)
     = Some [AnimationNotFound ''nope''] \<and>
   map_option is_animating (play_to_end demo_env ''idle'' False 0 initial) = Some True \<and>
   map_option is_alive (play_to_end demo_env ''idle'' False 0 initial) = Some False \<and>
   map_option logged (play_to_end demo_env ''idle'' False 0 initial)
     = Some [AnimationError ''idle'' ZeroDivisionError]"
proof -
  have "is_animating (animate_step fs s) = is_animating s" by simp
  then show ?thesis by (simp only: simp_thms) (simp add: run_defs)
qed

text \<open>
  C2. The specification has it that each of \<open>play_animation\<close>, \<open>display_message\<close>,
  \<open>display_static_image\<close> and \<open>clear\<close> first stops the animation in flight and cancels
  a pending timer. \<open>play_animation\<close> calls \<open>stop_animation\<close> only, where its three
  siblings also cancel \<open>self.timer\<close>: it returns with all timers as they were.
  After a message armed a timer for \<open>clear\<close>, starting \<open>spin\<close> leaves that timer
  pending; when it fires, \<open>clear\<close> stops the animation that was started after the
  message.
\<close>

theorem play_animation_leaves_timer_pending:
  "(\<exists>s'. play_animation fs animation_name loop fps s = Some s' \<and>
         timers s' = timers s \<and> timer s' = timer s) \<and>
   map_option timers message_then_spin
     = Some [\<lparr>t_interval = 5, t_function = Clear, t_status = Pending\<rparr>] \<and>
   map_option timer message_then_spin = Some (Some 0) \<and>
   map_option is_alive message_then_spin = Some True \<and>
   map_option is_alive (Option.bind message_then_spin (timer_fires demo_env 0)) = Some False \<and>
   map_option is_animating (Option.bind message_then_spin (timer_fires demo_env 0)) = Some False"
proof -
  obtain s1 where s1: "stop_animation fs s = Some s1" "timers s1 = timers s" "timer s1 = timer s"
    by (rule stop_animation_total)
  then have "\<exists>s'. play_animation fs animation_name loop fps s = Some s' \<and>
         timers s' = timers s \<and> timer s' = timer s"
    by (simp add: play_animation_def)
  then show ?thesis
    by (simp add: message_then_spin_def display_message_def timer_fires_def clear_def
        cancel_timer_def run_defs)
qed

text \<open>
  C3. The specification has it that the loop tests the flag before each frame, so that
  \<open>stop_animation\<close> waits for at most the one frame in flight. The test is the
  condition of the \<open>while\<close> around the whole \<open>for\<close> loop. With \<open>spin\<close> (three
  frames) stopped right after its first frame, two more frames reach the device while
  \<open>stop_animation\<close> blocks.
\<close>

theorem stop_after_first_frame_pushes_two_more:
  "map_option length (Option.bind spin_after_first_frame (pushed_while_stopping demo_env))
     = Some 2"
  by (simp add: spin_after_first_frame_def pushed_while_stopping_def run_defs)

text \<open>
  C3 as amended: the flag is tested once for each pass over the frames. From every state,
  \<open>stop_animation\<close> returns, with the flag false and no thread alive, after the thread
  has pushed the frames that were left of its current pass (all of them when the delay is
  not negative, none when the thread stands at the \<open>while\<close> or has not loaded yet).
\<close>

theorem stop_animation_finishes_the_pass:
  "\<exists>s'. stop_animation fs s = Some s' \<and> \<not> is_alive s' \<and> \<not> is_animating s' \<and>
        pushes s' = pushes s @ pending_frames s"
proof -
  obtain s' where "stop_animation fs s = Some s'" "\<not> is_alive s'" "\<not> is_animating s'"
    "pushes s' = pushes s @ pending_frames s"
    by (rule stop_animation_total)
  then show ?thesis by blast
qed

text \<open>
  C4. The specification has it that \<open>play_animation\<close> with \<open>fps <= 0\<close> or an empty
  name is rejected before any state changes. Nothing in the class validates an argument:
  with a rate of zero, and with the empty name, the flag is set and the thread is
  started; the division by zero happens in the thread, which logs it.
\<close>

theorem play_animation_starts_thread_for_zero_fps:
  "play_animation demo_env ''idle'' False 0 initial
     = Some (initial\<lparr>is_animating := True,
          current_thread := Some \<lparr>t_name = ''idle'', t_loop = False, t_fps = 0, t_pc = Loading\<rparr>\<rparr>) \<and>
   play_animation demo_env [] False 10 initial
     = Some (initial\<lparr>is_animating := True,
          current_thread := Some \<lparr>t_name = [], t_loop = False, t_fps = 10, t_pc = Loading\<rparr>\<rparr>) \<and>
   map_option logged (play_to_end demo_env ''idle'' False 0 initial)
     = Some [AnimationError ''idle'' ZeroDivisionError]"
  by (simp add: run_defs)

text \<open>
  C4 as amended: \<open>play_animation\<close> validates nothing. For every name, loop flag and rate
  it stops the running animation, sets the flag and starts a thread with these arguments.
  With a rate of zero the first step of that thread raises \<open>ZeroDivisionError\<close>, which is
  caught and logged there; the thread ends without a push and the flag stays as it was.
\<close>

theorem play_animation_validates_nothing:
  "(\<exists>s1. stop_animation fs self = Some s1 \<and>
         play_animation fs animation_name loop fps self
           = Some (s1\<lparr>is_animating := True,
                current_thread := Some \<lparr>t_name = animation_name, t_loop = loop,
                                        t_fps = fps, t_pc = Loading\<rparr>\<rparr>)) \<and>
   logged (animate_step fs (s\<lparr>current_thread :=
        Some \<lparr>t_name = animation_name, t_loop = loop, t_fps = 0, t_pc = Loading\<rparr>\<rparr>))
     = logged s @ [AnimationError animation_name ZeroDivisionError] \<and>
   \<not> is_alive (animate_step fs (s\<lparr>current_thread :=
        Some \<lparr>t_name = animation_name, t_loop = loop, t_fps = 0, t_pc = Loading\<rparr>\<rparr>)) \<and>
   pushes (animate_step fs (s\<lparr>current_thread :=
        Some \<lparr>t_name = animation_name, t_loop = loop, t_fps = 0, t_pc = Loading\<rparr>\<rparr>))
     = pushes s \<and>
   is_animating (animate_step fs (s\<lparr>current_thread :=
        Some \<lparr>t_name = animation_name, t_loop = loop, t_fps = 0, t_pc = Loading\<rparr>\<rparr>))
     = is_animating s"
proof -
  obtain s1 where s1: "stop_animation fs self = Some s1"
    by (rule stop_animation_total)
  then have "\<exists>s1. stop_animation fs self = Some s1 \<and>
         play_animation fs animation_name loop fps self
           = Some (s1\<lparr>is_animating := True,
                current_thread := Some \<lparr>t_name = animation_name, t_loop = loop,
                                        t_fps = fps, t_pc = Loading\<rparr>\<rparr>)"
    by (simp add: play_animation_def)
  then show ?thesis
    by (simp add: animate_step_def animate_load_def is_alive_def)
qed

text \<open>
  C5. \<open>display_message\<close> returns, and the timers it has created are: none for a
  duration that is not positive; for a positive duration exactly one, which
  \<open>self.timer\<close> then refers to, with the given duration and with \<open>display_idle\<close> as
  its function when \<open>return_to_idle\<close> is true and \<open>clear\<close> otherwise. When no timer
  but the one of \<open>self.timer\<close> was alive before the call, that new timer is the only
  one alive afterwards, and none is alive for a duration that is not positive.
\<close>

theorem display_message_arms_one_timer:
  "\<exists>s'. display_message fs message duration return_to_idle self = Some s' \<and>
     length (timers self) \<le> length (timers s') \<and>
     drop (length (timers self)) (timers s')
       = (if duration > 0
          then [\<lparr>t_interval = duration,
                 t_function = (if return_to_idle then DisplayIdle else Clear),
                 t_status = Pending\<rparr>]
          else []) \<and>
     timer s' = (if duration > 0 then Some (length (timers self)) else timer self) \<and>
     (timer_ok self \<longrightarrow>
        timer_ok s' \<and>
        armed s' = (if duration > 0
                    then [\<lparr>t_interval = duration,
                           t_function = (if return_to_idle then DisplayIdle else Clear),
                           t_status = Pending\<rparr>]
                    else []))"
proof -
  obtain s1 where s1: "stop_animation fs self = Some s1"
    "timers s1 = timers self" "timer s1 = timer self"
    by (rule stop_animation_total)
  let ?d = "draw_message fs message (cancel_timer s1)"
  let ?new = "\<lparr>t_interval = duration,
                t_function = (if return_to_idle then DisplayIdle else Clear),
                t_status = Pending\<rparr>"
  have l: "length (timers ?d) = length (timers self)" "timer ?d = timer self"
    using s1(2,3) by simp_all
  have ok: "armed ?d = []" if "timer_ok self"
  proof -
    have "timer_ok s1" using that timer_ok_cong [OF s1(2,3)] by simp
    then have "armed (cancel_timer s1) = []" by (rule cancel_timer_armed)
    then show ?thesis by (simp add: armed_def)
  qed
  show ?thesis
  proof (cases "duration > 0")
    case True
    let ?s = "arm_timer duration (if return_to_idle then DisplayIdle else Clear) ?d"
    have "display_message fs message duration return_to_idle self = Some ?s"
      using True by (simp only: display_message_eq [OF s1(1)] if_True)
    moreover have "length (timers self) \<le> length (timers ?s)"
      "drop (length (timers self)) (timers ?s) = [?new]"
      "timer ?s = Some (length (timers self))"
      using l by simp_all
    moreover have "timer_ok ?s" "armed ?s = [?new]" if "timer_ok self"
      using ok [OF that] by (simp_all add: timer_ok_arm_timer armed_arm_timer)
    ultimately show ?thesis using True by (intro exI [of _ ?s]) simp
  next
    case False
    have "display_message fs message duration return_to_idle self = Some ?d"
      using False by (simp only: display_message_eq [OF s1(1)] if_False)
    moreover have "timer_ok ?d" if "timer_ok self"
      using ok [OF that] by (rule timer_ok_no_armed)
    ultimately show ?thesis using False l ok by (intro exI [of _ ?d]) simp
  qed
qed

text \<open>After a first message has armed a timer for \<open>clear\<close>, a second message with a
  duration replaces it by its own, and a third without a duration leaves none alive.\<close>

theorem display_message_arms_one_timer_witness:
  "timer_ok initial \<and>
   display_message demo_env ''a'' 3 False initial = Some after_message \<and>
   timer_ok after_message \<and>
   armed after_message = [\<lparr>t_interval = 3, t_function = Clear, t_status = Pending\<rparr>] \<and>
   (\<exists>s'. display_message demo_env ''b'' 5 True after_message = Some s' \<and>
         drop 1 (timers s') = [\<lparr>t_interval = 5, t_function = DisplayIdle, t_status = Pending\<rparr>] \<and>
         armed s' = [\<lparr>t_interval = 5, t_function = DisplayIdle, t_status = Pending\<rparr>] \<and>
         timer s' = Some 1) \<and>
   (\<exists>s'. display_message demo_env ''c'' 0 True after_message = Some s' \<and>
         drop 1 (timers s') = [] \<and> armed s' = [])"
proof -
  have a: "timer_ok initial" by (rule timer_ok_initial)
  have b: "display_message demo_env ''a'' 3 False initial = Some after_message"
    by (simp add: display_message_eq [OF stop_animation_idle] is_alive_def initial_def
        after_message_def)
  have l: "armed after_message = [\<lparr>t_interval = 3, t_function = Clear, t_status = Pending\<rparr>]"
    "length (timers after_message) = 1"
    by (simp_all add: after_message_def armed_def cancel_timer_def initial_def)
  have c: "timer_ok after_message"
    by (simp add: after_message_def timer_ok_def cancel_timer_def initial_def)
  have d: "\<exists>s'. display_message demo_env ''b'' 5 True after_message = Some s' \<and>
         drop 1 (timers s') = [\<lparr>t_interval = 5, t_function = DisplayIdle, t_status = Pending\<rparr>] \<and>
         armed s' = [\<lparr>t_interval = 5, t_function = DisplayIdle, t_status = Pending\<rparr>] \<and>
         timer s' = Some 1"
    using display_message_arms_one_timer [where fs = demo_env and message = "''b''" and duration = 5
        and return_to_idle = True and self = after_message] c l(2)
    by auto
  have e: "\<exists>s'. display_message demo_env ''c'' 0 True after_message = Some s' \<and>
         drop 1 (timers s') = [] \<and> armed s' = []"
    using display_message_arms_one_timer [where fs = demo_env and message = "''c''" and duration = 0
        and return_to_idle = True and self = after_message] c l(2)
    by auto
  show ?thesis
    using a b c l(1) d e by (simp only: simp_thms)
qed

text \<open>
  C6. When the name is in neither the user icons nor the package icons,
  \<open>display_static_image\<close> returns, and after the stop of the running animation that
  opens every operation it pushes nothing, leaves the device buffer alone and logs the one
  error \<open>Image not found\<close>. With no animation thread alive at the call, the frames pushed
  so far and the buffer are those from before the call and the log has grown by exactly
  that entry.
\<close>

theorem missing_static_image_pushes_nothing:
  assumes "user_icons fs image_name = None" "package_icons fs image_name = None"
  shows "\<exists>s1 s'. stop_animation fs self = Some s1 \<and>
     display_static_image fs image_name self = Some s' \<and>
     pushes s' = pushes s1 \<and> buffer s' = buffer s1 \<and>
     logged s' = logged s1 @ [ImageNotFound image_name] \<and>
     (\<not> is_alive self \<longrightarrow>
        pushes s' = pushes self \<and> buffer s' = buffer self \<and>
        logged s' = logged self @ [ImageNotFound image_name])"
proof -
  obtain s1 where s1: "stop_animation fs self = Some s1"
    by (rule stop_animation_total)
  let ?s = "logging_error (ImageNotFound image_name) (cancel_timer s1)"
  have e: "display_static_image fs image_name self = Some ?s"
    by (simp only: display_static_image_eq [OF s1] assms option.case)
  have f: "pushes ?s = pushes s1" "buffer ?s = buffer s1"
    "logged ?s = logged s1 @ [ImageNotFound image_name]"
    by simp_all
  have g: "pushes s1 = pushes self \<and> buffer s1 = buffer self \<and> logged s1 = logged self"
    if "\<not> is_alive self"
    using s1 stop_animation_idle [OF that, of fs] by auto
  show ?thesis
    apply (rule exI [of _ s1])
    apply (rule exI [of _ ?s])
    using s1 e f g apply simp
    done
qed

text \<open>The fresh device and an icon name found in neither location.\<close>

theorem missing_static_image_pushes_nothing_witness:
  "user_icons demo_env ''missing'' = None \<and> package_icons demo_env ''missing'' = None \<and>
   \<not> is_alive initial \<and>
   (\<exists>s'. display_static_image demo_env ''missing'' initial = Some s' \<and>
         pushes s' = pushes initial \<and> buffer s' = buffer initial \<and>
         logged s' = [ImageNotFound ''missing''])"
proof -
  have a: "user_icons demo_env ''missing'' = None" "package_icons demo_env ''missing'' = None"
    by (simp_all add: demo_env_def)
  have b: "\<not> is_alive initial" "logged initial = []"
    by (simp_all add: is_alive_def initial_def)
  show ?thesis
    using a b missing_static_image_pushes_nothing [OF a, of initial] by auto
qed

text \<open>
  C7. Where the user location holds the name, the frames that the thread of
  \<open>play_animation\<close> loads are the user's files (sorted, decoded, centred) and the
  result is the same whatever the package holds; the package directory is read only
  when the user directory does not exist. Likewise \<open>display_static_image\<close> shows the
  user's icon whatever the package holds, and the package icon only when the user has none.
\<close>

theorem user_override_takes_precedence:
  "(user_animations fs (t_name t) = Some dir \<longrightarrow>
      animate_load (fs\<lparr>package_animations := pa\<rparr>) t s = animate_load fs t s \<and>
      (t_fps t \<noteq> 0 \<longrightarrow>
         animate_load fs t s
           = after_load t (1 / of_int (t_fps t)) (load_frames s (sorted_bmp dir)) s)) \<and>
   (user_animations fs (t_name t) = None \<longrightarrow> package_animations fs (t_name t) = Some dir \<longrightarrow>
      t_fps t \<noteq> 0 \<longrightarrow>
      animate_load fs t s
        = after_load t (1 / of_int (t_fps t)) (load_frames s (sorted_bmp dir)) s) \<and>
   (user_icons fs image_name = Some f \<longrightarrow>
      display_static_image (fs\<lparr>package_icons := pic\<rparr>) image_name self
        = display_static_image fs image_name self \<and>
      display_static_image fs image_name self
        = map_option (show_file image_name f \<circ> cancel_timer) (stop_animation fs self)) \<and>
   (user_icons fs image_name = None \<longrightarrow> package_icons fs image_name = Some f \<longrightarrow>
      display_static_image fs image_name self
        = map_option (show_file image_name f \<circ> cancel_timer) (stop_animation fs self))"
proof -
  obtain s1 where s1: "stop_animation fs self = Some s1"
    by (rule stop_animation_total)
  have s1': "stop_animation (fs\<lparr>package_icons := pic\<rparr>) self = Some s1"
    using s1 stop_animation_env_cong [of "fs\<lparr>package_icons := pic\<rparr>" fs self] by simp
  have a: "animate_load (fs\<lparr>package_animations := pa\<rparr>) t s = animate_load fs t s"
    if "user_animations fs (t_name t) = Some dir"
    using that by (simp add: animate_load_def Let_def)
  have b: "animate_load fs t s
           = after_load t (1 / of_int (t_fps t)) (load_frames s (sorted_bmp dir)) s"
    if "user_animations fs (t_name t) = Some dir" "t_fps t \<noteq> 0"
    using that by (simp add: animate_load_def Let_def)
  have c: "animate_load fs t s
           = after_load t (1 / of_int (t_fps t)) (load_frames s (sorted_bmp dir)) s"
    if "user_animations fs (t_name t) = None" "package_animations fs (t_name t) = Some dir"
      "t_fps t \<noteq> 0"
    using that by (simp add: animate_load_def Let_def)
  have d: "display_static_image (fs\<lparr>package_icons := pic\<rparr>) image_name self
        = display_static_image fs image_name self"
    "display_static_image fs image_name self
        = map_option (show_file image_name f \<circ> cancel_timer) (stop_animation fs self)"
    if "user_icons fs image_name = Some f"
    using that by (simp_all add: display_static_image_eq [OF s1] display_static_image_eq [OF s1'] s1)
  have e: "display_static_image fs image_name self
        = map_option (show_file image_name f \<circ> cancel_timer) (stop_animation fs self)"
    if "user_icons fs image_name = None" "package_icons fs image_name = Some f"
    using that by (simp add: display_static_image_eq [OF s1] s1)
  show ?thesis using a b c d e by blast
qed

text \<open>\<open>idle\<close> and the icon \<open>ok\<close> exist in both locations, \<open>spin\<close> and the icon
  \<open>bad\<close> in the package only.\<close>

theorem user_override_takes_precedence_witness:
  "user_animations demo_env ''idle'' = Some [(''0.bmp'', Bitmap glyph)] \<and>
   package_animations demo_env ''idle'' = Some [(''0.bmp'', Bitmap dot), (''1.bmp'', Bitmap dot)] \<and>
   animate_load (demo_env\<lparr>package_animations := (\<lambda>n. None)\<rparr>)
       \<lparr>t_name = ''idle'', t_loop = True, t_fps = 2, t_pc = Loading\<rparr> initial
     = animate_load demo_env \<lparr>t_name = ''idle'', t_loop = True, t_fps = 2, t_pc = Loading\<rparr> initial \<and>
   animate_load demo_env \<lparr>t_name = ''idle'', t_loop = True, t_fps = 2, t_pc = Loading\<rparr> initial
     = after_load \<lparr>t_name = ''idle'', t_loop = True, t_fps = 2, t_pc = Loading\<rparr> (1 / 2)
         (load_frames initial (sorted_bmp [(''0.bmp'', Bitmap glyph)])) initial \<and>
   user_animations demo_env ''spin'' = None \<and>
   animate_load demo_env \<lparr>t_name = ''spin'', t_loop = True, t_fps = 2, t_pc = Loading\<rparr> initial
     = after_load \<lparr>t_name = ''spin'', t_loop = True, t_fps = 2, t_pc = Loading\<rparr> (1 / 2)
         (load_frames initial (sorted_bmp spin_files)) initial \<and>
   user_icons demo_env ''ok'' = Some (Bitmap glyph) \<and>
   package_icons demo_env ''ok'' = Some (Bitmap dot) \<and>
   display_static_image (demo_env\<lparr>package_icons := (\<lambda>n. None)\<rparr>) ''ok'' initial
     = display_static_image demo_env ''ok'' initial \<and>
   display_static_image demo_env ''ok'' initial
     = Some (show_file ''ok'' (Bitmap glyph) (cancel_timer (initial\<lparr>is_animating := False\<rparr>))) \<and>
   user_icons demo_env ''bad'' = None \<and>
   display_static_image demo_env ''bad'' initial
     = Some (show_file ''bad'' Corrupt (cancel_timer (initial\<lparr>is_animating := False\<rparr>)))"
proof -
  have i: "\<not> is_alive initial" by (simp add: is_alive_def initial_def)
  have u: "user_animations demo_env ''idle'' = Some [(''0.bmp'', Bitmap glyph)]"
    "package_animations demo_env ''idle'' = Some [(''0.bmp'', Bitmap dot), (''1.bmp'', Bitmap dot)]"
    "user_animations demo_env ''spin'' = None"
    "package_animations demo_env ''spin'' = Some spin_files"
    "user_icons demo_env ''ok'' = Some (Bitmap glyph)"
    "package_icons demo_env ''ok'' = Some (Bitmap dot)"
    "user_icons demo_env ''bad'' = None"
    "package_icons demo_env ''bad'' = Some Corrupt"
    by (simp_all add: demo_env_def)
  show ?thesis
    using u
      user_override_takes_precedence [where fs = demo_env and t = "\<lparr>t_name = ''idle'', t_loop = True, t_fps = 2, t_pc = Loading\<rparr>"
            and dir = "[(''0.bmp'', Bitmap glyph)]" and pa = "\<lambda>n. None" and s = initial
            and image_name = "''ok''" and f = "Bitmap glyph" and pic = "\<lambda>n. None"
            and self = initial]
      user_override_takes_precedence [where fs = demo_env and t = "\<lparr>t_name = ''spin'', t_loop = True, t_fps = 2, t_pc = Loading\<rparr>"
            and dir = spin_files
            and pa = "\<lambda>n. None" and s = initial
            and image_name = "''bad''" and f = Corrupt and pic = "\<lambda>n. None"
            and self = initial]
    by (simp add: stop_animation_idle [OF i])
qed



text \<open>
  C9. For a source image of any size, smaller or larger than the device, the image that
  \<open>_center_image\<close> returns has the size of the device, \<open>height\<close> rows of \<open>width\<close>
  pixels, and every pixel \<open>(X, Y)\<close> of it is the source pixel at
  \<open>(X - x, Y - y)\<close> where the source box at offset
  \<open>x = (width - img_width) // 2\<close>, \<open>y = (height - img_height) // 2\<close> covers it, and
  blank elsewhere.
\<close>

theorem center_image_sized_and_centered:
  assumes "isize img = (img_width, img_height)"
    and "0 \<le> X" "X < width self" "0 \<le> Y" "Y < height self"
  shows "isize (center_image self img) = (width self, height self) \<and>
     length (rows (center_image self img)) = nat (height self) \<and>
     list_all (\<lambda>r. length r = nat (width self)) (rows (center_image self img)) \<and>
     getpixel (center_image self img) X Y =
       (let x = (width self - img_width) div 2;
            y = (height self - img_height) div 2
        in if x \<le> X \<and> X < x + img_width \<and> y \<le> Y \<and> Y < y + img_height
           then getpixel img (X - x) (Y - y) else False)"
  using center_image_pixel [OF assms] center_image_rows [of self img]
  by (simp add: Let_def)

text \<open>On the 128 x 32 device a source of 2 x 2 pixels lands at offset \<open>(63, 15)\<close> and
  one of 130 x 34 pixels at \<open>(-1, -1)\<close>, its first column and row cut off.\<close>

theorem center_image_sized_and_centered_witness:
  "isize glyph = (2, 2) \<and> (0::int) \<le> 63 \<and> 63 < width initial \<and>
   (0::int) \<le> 15 \<and> 15 < height initial \<and>
   isize (center_image initial glyph) = (128, 32) \<and>
   length (rows (center_image initial glyph)) = 32 \<and>
   getpixel (center_image initial glyph) 63 15 = True \<and>
   isize oversize = (130, 34) \<and>
   isize (center_image initial oversize) = (128, 32) \<and>
   getpixel (center_image initial oversize) 0 0 = True"
  using center_image_sized_and_centered
          [where img = glyph and img_width = 2 and img_height = 2 and self = initial
             and X = 63 and Y = 15]
        center_image_sized_and_centered
          [where img = oversize and img_width = 130 and img_height = 34 and self = initial
             and X = 0 and Y = 0]
  by (simp add: glyph_def oversize_def initial_def getpixel_def)

text \<open>
  C10. A call of \<open>play_animation\<close> that gives the name only runs with \<open>loop = False\<close>
  and \<open>fps = 10\<close>; a call of \<open>display_message\<close> that gives the message only runs with
  \<open>duration = 0\<close> and \<open>return_to_idle = True\<close>, so it returns without creating a
  timer, and no timer is alive afterwards when at most the one of \<open>self.timer\<close> was
  alive before.
\<close>

theorem optional_arguments_default:
  "play_animation_call fs animation_name None None self
     = play_animation fs animation_name False 10 self \<and>
   display_message_call fs message None None self = display_message fs message 0 True self \<and>
   (\<exists>s'. display_message_call fs message None None self = Some s' \<and>
         length (timers s') = length (timers self) \<and> timer s' = timer self \<and>
         (timer_ok self \<longrightarrow> armed s' = []))"
proof -
  obtain s1 where s1: "stop_animation fs self = Some s1"
    "timers s1 = timers self" "timer s1 = timer self"
    by (rule stop_animation_total)
  let ?d = "draw_message fs message (cancel_timer s1)"
  have c: "display_message_call fs message None None self = display_message fs message 0 True self"
    by (simp add: display_message_call_def)
  have "display_message fs message 0 True self = Some ?d"
    by (simp only: display_message_eq [OF s1(1)] less_irrefl if_False)
  moreover have "length (timers ?d) = length (timers self)" "timer ?d = timer self"
    using s1(2,3) by simp_all
  moreover have "armed ?d = []" if "timer_ok self"
  proof -
    have "timer_ok s1" using that timer_ok_cong [OF s1(2,3)] by simp
    then have "armed (cancel_timer s1) = []" by (rule cancel_timer_armed)
    then show ?thesis by (simp add: armed_def)
  qed
  ultimately have "\<exists>s'. display_message_call fs message None None self = Some s' \<and>
         length (timers s') = length (timers self) \<and> timer s' = timer self \<and>
         (timer_ok self \<longrightarrow> armed s' = [])"
    unfolding c by blast
  then show ?thesis using c by (simp add: play_animation_call_def)
qed

text \<open>After a message that armed a timer, a bare \<open>display_message\<close> leaves none alive.\<close>

theorem optional_arguments_default_witness:
  "timer_ok after_message \<and>
   armed after_message = [\<lparr>t_interval = 3, t_function = Clear, t_status = Pending\<rparr>] \<and>
   (\<exists>s'. display_message_call demo_env ''hi'' None None after_message = Some s' \<and>
         armed s' = [])"
proof -
  have l: "armed after_message = [\<lparr>t_interval = 3, t_function = Clear, t_status = Pending\<rparr>]"
    by (simp add: after_message_def armed_def cancel_timer_def initial_def)
  have c: "timer_ok after_message"
    by (simp add: after_message_def timer_ok_def cancel_timer_def initial_def)
  show ?thesis
    using l c optional_arguments_default [where fs = demo_env and message = "''hi''" and self = after_message
        and animation_name = "''idle''"] by blast
qed

end
